theory Spec2Isabelle
  imports Complex_Main
begin

text \<open>
  The scraper-to-catalog pipeline of CopIt: the Backmarket scraper
  (\<open>server/src/scrapers/backmarket.js\<close>) with its extraction, category walker, persistence
  loop and driver, the stand-alone Newegg scraper \<open>scrapeNewegg\<close>, and the catalog schema
  (\<open>server/src/models/product.js\<close>). The browser, the pages and the store are the
  environment: a run is a function of a world, which says what each page shows and which
  calls fail, and of a state in which the effects of the run are recorded.
\<close>

section \<open>JavaScript values and string helpers\<close>

text \<open>
  A JavaScript number as the scrapers produce it: \<open>NaN\<close>, or a finite value. The value of
  a decimal digit string is kept exactly, as a rational; the rounding of that value to a
  binary64 double is not part of the model.
\<close>

datatype jsnum = NaN | Num rat

text \<open>Truthiness of a number (\<open>!x\<close>, \<open>x && ...\<close>): \<open>NaN\<close> and \<open>0\<close> are falsy.\<close>

fun num_truthy :: "jsnum \<Rightarrow> bool" where
  "num_truthy NaN = False"
| "num_truthy (Num r) = (r \<noteq> 0)"

text \<open>Truthiness of a value that is \<open>null\<close>/\<open>undefined\<close> (\<open>None\<close>) or a number.\<close>

fun opt_num_truthy :: "jsnum option \<Rightarrow> bool" where
  "opt_num_truthy None = False"
| "opt_num_truthy (Some n) = num_truthy n"

text \<open>Truthiness of a value that is \<open>undefined\<close> (\<open>None\<close>) or a string: the empty string is falsy.\<close>

fun opt_str_truthy :: "string option \<Rightarrow> bool" where
  "opt_str_truthy None = False"
| "opt_str_truthy (Some s) = (s \<noteq> [])"

text \<open>\<open>x > 0\<close> on a number: false for \<open>NaN\<close>.\<close>

fun num_gt_zero :: "jsnum \<Rightarrow> bool" where
  "num_gt_zero NaN = False"
| "num_gt_zero (Num r) = (0 < r)"

definition is_digit :: "char \<Rightarrow> bool" where
  "is_digit c = (c \<in> set ''0123456789'')"

text \<open>The value of a digit is its position in the digit string.\<close>

definition digit_val :: "char \<Rightarrow> nat" where
  "digit_val c = length (takeWhile (\<lambda>d. d \<noteq> c) ''0123456789'')"

definition digits_val :: "string \<Rightarrow> nat" where
  "digits_val ds = foldl (\<lambda>n c. 10 * n + digit_val c) 0 ds"

text \<open>
  The regular-expression replacement \<open>s.replace(/[^0-9.]/g, '')\<close>: every character that is
  neither a digit nor the decimal point is deleted.
\<close>

definition strip_non_numeric :: "string \<Rightarrow> string" where
  "strip_non_numeric s = filter (\<lambda>c. is_digit c \<or> c = CHR ''.'') s"

text \<open>
  \<open>parseFloat\<close> on a string of digits and decimal points, which is all either scraper passes
  to it (the argument is the result of \<open>strip_non_numeric\<close>, or the literal \<open>'0'\<close>). The
  longest prefix of the form \<open>digits\<close>, \<open>digits.digits\<close>, \<open>digits.\<close> or \<open>.digits\<close> is read;
  when there is no such prefix the result is \<open>NaN\<close>. Leading white space, signs, exponents
  and \<open>Infinity\<close> cannot occur in such a string and are not modelled.
\<close>

definition parseFloat :: "string \<Rightarrow> jsnum" where
  "parseFloat s =
     (let ip = takeWhile is_digit s;
          r = dropWhile is_digit s;
          fp = (case r of [] \<Rightarrow> [] | c # t \<Rightarrow> if c = CHR ''.'' then takeWhile is_digit t else [])
      in if ip = [] \<and> fp = [] then NaN
         else Num (of_nat (digits_val ip) + of_nat (digits_val fp) / 10 ^ length fp))"

text \<open>\<open>String.prototype.trim\<close> on the ASCII white-space characters.\<close>

definition is_space :: "char \<Rightarrow> bool" where
  "is_space c = (c \<in> set [CHR '' '', CHR 0x09, CHR 0x0A, CHR 0x0B, CHR 0x0C, CHR 0x0D])"

definition trim :: "string \<Rightarrow> string" where
  "trim s = rev (dropWhile is_space (rev (dropWhile is_space s)))"

text \<open>\<open>s.split(c)\<close> for a one-character separator: never the empty array.\<close>

fun split_on :: "char \<Rightarrow> string \<Rightarrow> string list" where
  "split_on c [] = [[]]"
| "split_on c (x # xs) =
     (if x = c then [] # split_on c xs
      else (case split_on c xs of [] \<Rightarrow> [[x]] | y # ys \<Rightarrow> (x # y) # ys))"

text \<open>\<open>Map.prototype.set\<close> on a map kept in insertion order.\<close>

fun map_set :: "(string \<times> string) list \<Rightarrow> string \<Rightarrow> string \<Rightarrow> (string \<times> string) list" where
  "map_set [] k v = [(k, v)]"
| "map_set (p # ps) k v = (if fst p = k then (k, v) # ps else p # map_set ps k v)"

section \<open>Data model\<close>

text \<open>
  What the selectors of \<open>scrapeProduct\<close> find on a loaded product page: the \<open>innerText\<close> of
  the element when there is one, the \<open>src\<close> of every product image and the \<open>innerText\<close> of
  every specification item in page order, and whether the add-to-cart control exists.
\<close>

record dom =
  price_el :: "string option"
  original_price_el :: "string option"
  title_el :: "string option"
  description_el :: "string option"
  image_srcs :: "string list"
  brand_el :: "string option"
  specs_items :: "string list"
  add_to_cart_el :: bool

text \<open>The object returned by \<open>page.evaluate\<close>; \<open>None\<close> is \<open>null\<close> or \<open>undefined\<close>.\<close>

record product =
  name :: "string option"
  price :: "jsnum option"
  originalPrice :: "jsnum option"
  description :: "string option"
  images :: "string list"
  brand :: "string option"
  specifications :: "(string \<times> string) list"
  stock :: nat

text \<open>The same object once \<open>scrapeProduct\<close> has added the source fields.\<close>

record listing = product +
  source :: string
  sourceUrl :: string
  sourceId :: string

text \<open>The update document \<open>{...productData, category, updatedAt}\<close>.\<close>

record update_doc = listing +
  category :: string
  updatedAt :: nat

text \<open>A stored catalog product: the scraper-written fields and those the store owns.\<close>

record catalog_product = update_doc +
  ratings :: "(string \<times> nat) list"
  createdAt :: nat

text \<open>The query object of a \<open>findOneAndUpdate\<close> call.\<close>

datatype query = BySourceKey string string | BySourceUrl "string option"

datatype error =
    Required_product_data_missing
  | No_browser
  | Launch_failed
  | Navigation_failed string
  | Store_failed
  | Close_failed

datatype log_entry =
    Error_scraping_product_from string error
  | Error_scraping_product string error
  | Error_scraping_category string error
  | Info_scraping_category string
  | Error_saving_product "string option" error
  | Info_completed nat string
  | Error_in_scraping_process error

text \<open>
  The environment of one run: the base URL (from the process environment, or the
  default), whether the browser launches and closes, the \<open>href\<close> of every product-card
  link of each listing page in page order and the content of each product page (\<open>None\<close>:
  opening or loading the page throws), which persistence calls fail and what
  \<open>Date.now()\<close> reads, both by the number of persistence calls made before.
\<close>

record world =
  base_url :: string
  launch_ok :: bool
  category_page :: "string \<Rightarrow> string list option"
  product_page :: "string \<Rightarrow> dom option"
  store_fails :: "nat \<Rightarrow> bool"
  now :: "nat \<Rightarrow> nat"
  close_ok :: bool

text \<open>
  The state a run threads through: the store, the persistence calls made, the URLs handed
  to \<open>scrapeProduct\<close>, the log, whether \<open>this.browser\<close> is set, whether the browser process
  runs, and how often \<open>close()\<close> and \<open>this.browser.close()\<close> were invoked.
\<close>

record state =
  db :: "catalog_product list"
  sync_calls :: "(query \<times> update_doc) list"
  attempts :: "string list"
  log :: "log_entry list"
  browser :: bool
  running :: bool
  close_calls :: nat
  browser_closes :: nat

definition logger :: "log_entry \<Rightarrow> state \<Rightarrow> state" where
  "logger e s = s\<lparr>log := log s @ [e]\<rparr>"

section \<open>The persistent store\<close>

text \<open>
  Modelled from the spec: the store's \<open>findOneAndUpdate\<close> with \<open>{upsert: true, new: true}\<close>
  belongs to the database library, which is not among the sources. The spec describes it
  as "find-one-and-upsert by key": the first record matching the query has the fields of
  the update document written over it, the fields the store owns being kept; when no
  record matches, one is inserted from the update document. A call may fail, and then
  leaves the store as it was.
\<close>

fun matches :: "query \<Rightarrow> catalog_product \<Rightarrow> bool" where
  "matches (BySourceKey src sid) d = (source d = src \<and> sourceId d = sid)"
| "matches (BySourceUrl u) d = (u = Some (sourceUrl d))"

definition write_fields :: "update_doc \<Rightarrow> catalog_product \<Rightarrow> catalog_product" where
  "write_fields u d =
     \<lparr>name = name u, price = price u, originalPrice = originalPrice u,
      description = description u, images = images u, brand = brand u,
      specifications = specifications u, stock = stock u,
      source = source u, sourceUrl = sourceUrl u, sourceId = sourceId u,
      category = category u, updatedAt = updatedAt u,
      ratings = ratings d, createdAt = createdAt d\<rparr>"

definition new_record :: "update_doc \<Rightarrow> catalog_product" where
  "new_record u =
     \<lparr>name = name u, price = price u, originalPrice = originalPrice u,
      description = description u, images = images u, brand = brand u,
      specifications = specifications u, stock = stock u,
      source = source u, sourceUrl = sourceUrl u, sourceId = sourceId u,
      category = category u, updatedAt = updatedAt u,
      ratings = [], createdAt = updatedAt u\<rparr>"

fun update_first :: "query \<Rightarrow> update_doc \<Rightarrow> catalog_product list \<Rightarrow> catalog_product list option" where
  "update_first q u [] = None"
| "update_first q u (d # ds) =
     (if matches q d then Some (write_fields u d # ds)
      else map_option ((#) d) (update_first q u ds))"

text \<open>Modelled from the spec: insert-if-absent-else-update by the query.\<close>

definition upsert :: "query \<Rightarrow> update_doc \<Rightarrow> catalog_product list \<Rightarrow> catalog_product list" where
  "upsert q u ds = (case update_first q u ds of Some ds' \<Rightarrow> ds' | None \<Rightarrow> ds @ [new_record u])"

text \<open>
  Modelled from the spec: the call of the \<open>k\<close>-th persistence step, which the world may
  make fail (a validation rejection, a store error).
\<close>

definition findOneAndUpdate ::
  "world \<Rightarrow> nat \<Rightarrow> query \<Rightarrow> update_doc \<Rightarrow> catalog_product list \<Rightarrow> error + catalog_product list" where
  "findOneAndUpdate w k q u ds = (if store_fails w k then Inl Store_failed else Inr (upsert q u ds))"

section \<open>The Backmarket scraper\<close>

subsection \<open>Extraction: \<open>scrapeProduct\<close>\<close>

definition getPrice :: "dom \<Rightarrow> jsnum option" where
  "getPrice d =
     (case price_el d of None \<Rightarrow> None
      | Some innerText \<Rightarrow> Some (parseFloat (strip_non_numeric innerText)))"

definition getOriginalPrice :: "dom \<Rightarrow> jsnum option" where
  "getOriginalPrice d =
     (case original_price_el d of None \<Rightarrow> None
      | Some innerText \<Rightarrow> Some (parseFloat (strip_non_numeric innerText)))"

definition getImages :: "dom \<Rightarrow> string list" where
  "getImages d = filter (\<lambda>src. src \<noteq> []) (image_srcs d)"

definition getSpecs :: "dom \<Rightarrow> (string \<times> string) list" where
  "getSpecs d =
     foldl (\<lambda>specs innerText.
              (case map trim (split_on CHR '':'' innerText) of
                 key # val # _ \<Rightarrow> if key \<noteq> [] \<and> val \<noteq> [] then map_set specs key val else specs
               | _ \<Rightarrow> specs))
           [] (specs_items d)"

definition evaluate_product :: "dom \<Rightarrow> product" where
  "evaluate_product d =
     \<lparr>name = map_option trim (title_el d),
      price = getPrice d,
      originalPrice = getOriginalPrice d,
      description = map_option trim (description_el d),
      images = getImages d,
      brand = map_option trim (brand_el d),
      specifications = getSpecs d,
      stock = (if add_to_cart_el d then 1 else 0)\<rparr>"

text \<open>\<open>url.split('/').pop().split('?')[0]\<close>\<close>

definition source_id_of :: "string \<Rightarrow> string" where
  "source_id_of url = hd (split_on CHR ''?'' (last (split_on CHR ''/'' url)))"

definition add_source :: "product \<Rightarrow> string \<Rightarrow> listing" where
  "add_source p url =
     \<lparr>name = name p, price = price p, originalPrice = originalPrice p,
      description = description p, images = images p, brand = brand p,
      specifications = specifications p, stock = stock p,
      source = ''Backmarket'', sourceUrl = url, sourceId = source_id_of url\<rparr>"

text \<open>The body of the \<open>try\<close> block of \<open>scrapeProduct\<close>.\<close>

definition scrapeProduct_body :: "world \<Rightarrow> string \<Rightarrow> state \<Rightarrow> error + listing" where
  "scrapeProduct_body w url s =
     (if \<not> browser s then Inl No_browser
      else case product_page w url of
             None \<Rightarrow> Inl (Navigation_failed url)
           | Some d \<Rightarrow>
               (let product = evaluate_product d
                in if \<not> opt_str_truthy (name product) \<or> \<not> opt_num_truthy (price product)
                   then Inl Required_product_data_missing
                   else Inr (add_source product url)))"

definition scrapeProduct :: "world \<Rightarrow> string \<Rightarrow> state \<Rightarrow> (error + listing) \<times> state" where
  "scrapeProduct w url s =
     (let s1 = s\<lparr>attempts := attempts s @ [url]\<rparr>
      in case scrapeProduct_body w url s1 of
           Inr product \<Rightarrow> (Inr product, s1)
         | Inl e \<Rightarrow> (Inl e, logger (Error_scraping_product_from url e) s1))"

subsection \<open>The category walker: \<open>scrapeCategory\<close>\<close>

text \<open>The in-page script that collects the links of the product cards, up to \<open>limit\<close>.\<close>

definition collect_links :: "int \<Rightarrow> string list \<Rightarrow> string list" where
  "collect_links limit hrefs =
     foldl (\<lambda>links href. if int (length links) < limit \<and> href \<noteq> [] then links @ [href] else links)
           [] hrefs"

fun scrape_links :: "world \<Rightarrow> string list \<Rightarrow> listing list \<Rightarrow> state \<Rightarrow> listing list \<times> state" where
  "scrape_links w [] products s = (products, s)"
| "scrape_links w (link # links) products s =
     (case scrapeProduct w link s of
        (Inr product, s1) \<Rightarrow> scrape_links w links (products @ [product]) s1
      | (Inl e, s1) \<Rightarrow> scrape_links w links products (logger (Error_scraping_product link e) s1))"

definition scrapeCategory :: "world \<Rightarrow> string \<Rightarrow> int \<Rightarrow> state \<Rightarrow> (error + listing list) \<times> state" where
  "scrapeCategory w categoryUrl limit s =
     (if \<not> browser s then (Inl No_browser, logger (Error_scraping_category categoryUrl No_browser) s)
      else case category_page w (base_url w @ categoryUrl) of
             None \<Rightarrow>
               (let e = Navigation_failed (base_url w @ categoryUrl)
                in (Inl e, logger (Error_scraping_category categoryUrl e) s))
           | Some hrefs \<Rightarrow>
               (case scrape_links w (collect_links limit hrefs) [] s of
                  (products, s1) \<Rightarrow> (Inr products, s1)))"

subsection \<open>The driver: \<open>scrapeAndSave\<close>\<close>

definition categories :: "(string \<times> string) list" where
  "categories =
     [(''Smartphones'', ''/us/en-us/c/smartphones''),
      (''Laptops'', ''/us/en-us/c/laptops''),
      (''Tablets'', ''/us/en-us/c/tablets'')]"

definition initialize :: "world \<Rightarrow> state \<Rightarrow> (error + unit) \<times> state" where
  "initialize w s =
     (if launch_ok w then (Inr (), s\<lparr>browser := True, running := True\<rparr>)
      else (Inl Launch_failed, s))"

definition close :: "world \<Rightarrow> state \<Rightarrow> (error + unit) \<times> state" where
  "close w s =
     (let s1 = s\<lparr>close_calls := close_calls s + 1\<rparr>
      in if browser s1
         then (let s2 = s1\<lparr>browser_closes := browser_closes s1 + 1\<rparr>
               in if close_ok w then (Inr (), s2\<lparr>running := False\<rparr>) else (Inl Close_failed, s2))
         else (Inr (), s1))"

definition make_update :: "listing \<Rightarrow> string \<Rightarrow> nat \<Rightarrow> update_doc" where
  "make_update productData cat t =
     \<lparr>name = name productData, price = price productData,
      originalPrice = originalPrice productData, description = description productData,
      images = images productData, brand = brand productData,
      specifications = specifications productData, stock = stock productData,
      source = source productData, sourceUrl = sourceUrl productData,
      sourceId = sourceId productData,
      category = cat, updatedAt = t\<rparr>"

text \<open>One iteration of the loop over \<open>products\<close>: the persistence call in its \<open>try\<close>/\<open>catch\<close>.\<close>

definition save_product :: "world \<Rightarrow> string \<Rightarrow> listing \<Rightarrow> state \<Rightarrow> state" where
  "save_product w cat productData s =
     (let k = length (sync_calls s);
          q = BySourceKey ''Backmarket'' (sourceId productData);
          u = make_update productData cat (now w k);
          s1 = s\<lparr>sync_calls := sync_calls s @ [(q, u)]\<rparr>
      in case findOneAndUpdate w k q u (db s1) of
           Inr ds \<Rightarrow> s1\<lparr>db := ds\<rparr>
         | Inl e \<Rightarrow> logger (Error_saving_product (name productData) e) s1)"

fun save_products :: "world \<Rightarrow> string \<Rightarrow> listing list \<Rightarrow> state \<Rightarrow> state" where
  "save_products w cat [] s = s"
| "save_products w cat (productData # rest) s = save_products w cat rest (save_product w cat productData s)"

text \<open>The loop over \<open>this.categories\<close>: an exception of \<open>scrapeCategory\<close> leaves the loop.\<close>

fun scrape_categories :: "world \<Rightarrow> (string \<times> string) list \<Rightarrow> state \<Rightarrow> (error + unit) \<times> state" where
  "scrape_categories w [] s = (Inr (), s)"
| "scrape_categories w ((cname, curl) # rest) s =
     (case scrapeCategory w curl 10 (logger (Info_scraping_category cname) s) of
        (Inl e, s1) \<Rightarrow> (Inl e, s1)
      | (Inr products, s1) \<Rightarrow>
          scrape_categories w rest
            (logger (Info_completed (length products) cname) (save_products w cname products s1)))"

definition scrapeAndSave :: "world \<Rightarrow> state \<Rightarrow> (error + unit) \<times> state" where
  "scrapeAndSave w s =
     (let (r, s1) = (case initialize w s of
                       (Inl e, s') \<Rightarrow> (Inl e, s')
                     | (Inr _, s') \<Rightarrow> scrape_categories w categories s');
          s2 = (case r of Inl e \<Rightarrow> logger (Error_in_scraping_process e) s1 | Inr _ \<Rightarrow> s1)
      in close w s2)"

definition initial_state :: "catalog_product list \<Rightarrow> state" where
  "initial_state ds =
     \<lparr>db = ds, sync_calls = [], attempts = [], log = [],
      browser = False, running = False, close_calls = 0, browser_closes = 0\<rparr>"


section \<open>The Newegg scraper\<close>

text \<open>
  What the selectors of \<open>scrapeNewegg\<close> find in one \<open>.product-item\<close>: the \<open>textContent\<close> of
  the title and price elements, the \<open>src\<close> of the image, the \<open>href\<close> of the first link, the
  stock element (its text and its \<open>data-stock\<close> attribute), the category and the brand.
  The rating, shipping and discount elements are read only to fill the description text;
  they and the description are left out.
\<close>

record newegg_item =
  n_title_el :: "string option"
  n_price_el :: "string option"
  n_img_src :: "string option"
  n_href :: "string option"
  n_stock_el :: "(string \<times> string option) option"
  n_category_el :: "string option"
  n_brand_el :: "string option"

record newegg_product =
  n_name :: "string option"
  n_price :: jsnum
  n_image :: "string option"
  n_url :: "string option"
  n_stock :: "(string \<times> int option) option"
  n_category :: "string option"
  n_brand :: "string option"

record newegg_update =
  u_name :: string
  u_price :: jsnum
  u_images :: "string list"
  u_source :: string
  u_sourceUrl :: "string option"
  u_category :: string
  u_brand :: string
  u_stock :: int
  u_lastUpdated :: nat

text \<open>
  \<open>parseInt(s, 10)\<close>: leading white space, an optional sign, then the longest run of
  digits; \<open>None\<close> is \<open>NaN\<close>.
\<close>

definition parseInt :: "string \<Rightarrow> int option" where
  "parseInt s =
     (let t = dropWhile is_space s;
          neg = (case t of [] \<Rightarrow> False | c # _ \<Rightarrow> c = CHR ''-'');
          u = (case t of [] \<Rightarrow> [] | c # r \<Rightarrow> if c = CHR ''-'' \<or> c = CHR ''+'' then r else t);
          ds = takeWhile is_digit u
      in if ds = [] then None
         else Some (if neg then - int (digits_val ds) else int (digits_val ds)))"

text \<open>\<open>a || b\<close> on strings that may be \<open>undefined\<close>.\<close>

definition str_or :: "string option \<Rightarrow> string \<Rightarrow> string" where
  "str_or a b = (case a of None \<Rightarrow> b | Some s \<Rightarrow> if s = [] then b else s)"

definition newegg_extract :: "newegg_item \<Rightarrow> newegg_product" where
  "newegg_extract item =
     (let price = map_option trim (n_price_el item)
      in \<lparr>n_name = map_option trim (n_title_el item),
          n_price = parseFloat (str_or (map_option strip_non_numeric price) ''0''),
          n_image = n_img_src item,
          n_url = n_href item,
          n_stock = map_option (\<lambda>(txt, attr). (trim txt, parseInt (str_or attr ''0''))) (n_stock_el item),
          n_category = map_option trim (n_category_el item),
          n_brand = map_option trim (n_brand_el item)\<rparr>)"

text \<open>The \<open>map\<close> and \<open>filter\<close> of the in-page script.\<close>

definition newegg_products :: "newegg_item list \<Rightarrow> newegg_product list" where
  "newegg_products items =
     filter (\<lambda>product. opt_str_truthy (n_name product) \<and> num_gt_zero (n_price product))
            (map newegg_extract items)"

text \<open>
  The environment of a Newegg run. The model this script loads (\<open>'../models/Product'\<close>) is
  not among the sources, so its store is represented by the calls it receives and by which
  of them fail. Closing the browser and disconnecting are taken to succeed.
\<close>

record newegg_world =
  n_launch_ok :: bool
  n_page :: "newegg_item list option"
  n_connect_ok :: bool
  n_store_fails :: "nat \<Rightarrow> bool"
  n_now :: "nat \<Rightarrow> nat"

record newegg_state =
  n_sync_calls :: "(query \<times> newegg_update) list"
  savedProducts :: "newegg_update list"
  errors :: "(string option \<times> error) list"
  n_browser_closes :: nat
  n_disconnects :: nat

definition newegg_update_of :: "newegg_product \<Rightarrow> string \<Rightarrow> string \<Rightarrow> nat \<Rightarrow> newegg_update" where
  "newegg_update_of product nm img t =
     \<lparr>u_name = nm, u_price = n_price product, u_images = [img], u_source = ''newegg'',
      u_sourceUrl = n_url product,
      u_category = str_or (n_category product) ''Other'',
      u_brand = str_or (n_brand product) ''Unknown'',
      u_stock = (case n_stock product of None \<Rightarrow> 0
                 | Some (_, quantity) \<Rightarrow> (case quantity of None \<Rightarrow> 0 | Some q \<Rightarrow> q)),
      u_lastUpdated = t\<rparr>"

text \<open>One iteration of the saving loop: the guard, the persistence call, the \<open>catch\<close>.\<close>

definition newegg_save :: "newegg_world \<Rightarrow> newegg_product \<Rightarrow> newegg_state \<Rightarrow> newegg_state" where
  "newegg_save w product s =
     (case (n_name product, n_image product) of
        (Some nm, Some img) \<Rightarrow>
          if nm \<noteq> [] \<and> num_truthy (n_price product) \<and> img \<noteq> [] then
            (let k = length (n_sync_calls s);
                 u = newegg_update_of product nm img (n_now w k);
                 s1 = s\<lparr>n_sync_calls := n_sync_calls s @ [(BySourceUrl (n_url product), u)]\<rparr>
             in if n_store_fails w k
                then s1\<lparr>errors := errors s1 @ [(n_name product, Store_failed)]\<rparr>
                else s1\<lparr>savedProducts := savedProducts s1 @ [u]\<rparr>)
          else s
      | _ \<Rightarrow> s)"

definition newegg_finally :: "newegg_state \<Rightarrow> newegg_state" where
  "newegg_finally s =
     s\<lparr>n_browser_closes := n_browser_closes s + 1, n_disconnects := n_disconnects s + 1\<rparr>"

definition scrapeNewegg :: "newegg_world \<Rightarrow> newegg_state \<Rightarrow> (error + unit) \<times> newegg_state" where
  "scrapeNewegg w s =
     (if \<not> n_launch_ok w then (Inl Launch_failed, s)
      else case n_page w of
             None \<Rightarrow> (Inl (Navigation_failed ''https://www.newegg.com/promotions/newegg-deals''),
                       newegg_finally s)
           | Some items \<Rightarrow>
               if \<not> n_connect_ok w then (Inl Store_failed, newegg_finally s)
               else (Inr (), newegg_finally (foldl (\<lambda>st product. newegg_save w product st) s (newegg_products items))))"

definition newegg_initial :: newegg_state where
  "newegg_initial =
     \<lparr>n_sync_calls = [], savedProducts = [], errors = [], n_browser_closes = 0, n_disconnects = 0\<rparr>"

section \<open>Scraped listings\<close>

text \<open>
  A listing is scraped from the world when its page is there and the listing is what
  \<open>scrapeProduct\<close> makes of that page, the mandatory fields being truthy.
\<close>

definition scraped_from :: "world \<Rightarrow> listing \<Rightarrow> bool" where
  "scraped_from w p =
     (case product_page w (sourceUrl p) of
        None \<Rightarrow> False
      | Some d \<Rightarrow> p = add_source (evaluate_product d) (sourceUrl p) \<and>
                  opt_str_truthy (name p) \<and> opt_num_truthy (price p))"

section \<open>Example inputs\<close>

text \<open>
  A product page with a title and a price but without images, the same page without a
  title, and the same page with a price of zero.
\<close>

definition phone_page :: dom where
  "phone_page =
     \<lparr>price_el = Some ''$1,299.99 USD'', original_price_el = None,
      title_el = Some '' Phone '', description_el = None, image_srcs = [],
      brand_el = None, specs_items = [''RAM: 16GB'', ''WarrantyNoColon'', ''Storage: 512GB''],
      add_to_cart_el = True\<rparr>"

definition untitled_page :: dom where
  "untitled_page = phone_page\<lparr>title_el := None\<rparr>"

definition free_page :: dom where
  "free_page = phone_page\<lparr>price_el := Some ''$0.00''\<rparr>"

text \<open>
  A world in which the first category lists these three pages, the listing page of the
  second category fails to load, and the third category lists one more good page.
\<close>

definition example_world :: world where
  "example_world =
     \<lparr>base_url = ''bm:'',
      launch_ok = True,
      category_page =
        (\<lambda>u. if u = ''bm:/us/en-us/c/smartphones'' then Some [''bm:/p/phone?l=12'', ''bm:/p/untitled'', ''bm:/p/free'']
             else if u = ''bm:/us/en-us/c/laptops'' then None
             else if u = ''bm:/us/en-us/c/tablets'' then Some [''bm:/p/tablet'']
             else Some []),
      product_page =
        (\<lambda>u. if u = ''bm:/p/phone?l=12'' then Some phone_page
             else if u = ''bm:/p/untitled'' then Some untitled_page
             else if u = ''bm:/p/free'' then Some free_page
             else if u = ''bm:/p/tablet'' then Some phone_page
             else None),
      store_fails = (\<lambda>k. False),
      now = (\<lambda>k. 1000 + k),
      close_ok = True\<rparr>"

text \<open>A listing page with ten product links, each leading to a good page.\<close>

definition ten_links :: "string list" where
  "ten_links = [''a/0'', ''a/1'', ''a/2'', ''a/3'', ''a/4'', ''a/5'', ''a/6'', ''a/7'', ''a/8'', ''a/9'']"

definition ten_link_world :: world where
  "ten_link_world =
     example_world\<lparr>category_page := (\<lambda>u. Some ten_links), product_page := (\<lambda>u. Some phone_page)\<rparr>"

text \<open>
  The listing \<open>scrapeProduct\<close> makes of the good page at a URL, a world whose second
  persistence call fails, a world in which every page shows a lower price, and the state
  of a scraper whose browser is launched.
\<close>

definition listing_of :: "string \<Rightarrow> listing" where
  "listing_of url = add_source (evaluate_product phone_page) url"

definition flaky_world :: world where
  "flaky_world = example_world\<lparr>store_fails := (\<lambda>k. k = 1)\<rparr>"

definition cheaper_world :: world where
  "cheaper_world =
     example_world\<lparr>product_page := (\<lambda>u. Some (phone_page\<lparr>price_el := Some ''$999''\<rparr>))\<rparr>"

definition open_state :: state where
  "open_state = (initial_state [])\<lparr>browser := True, running := True\<rparr>"

text \<open>
  A Newegg item with every element the guard asks for, the same item without its price
  element, a world whose deals page shows both, and a Backmarket page without a price
  element.
\<close>

definition gpu_item :: newegg_item where
  "gpu_item =
     \<lparr>n_title_el = Some '' GPU '', n_price_el = Some ''$1,299.99 USD'',
      n_img_src = Some ''ne:/img/gpu.jpg'', n_href = Some ''ne:/p/gpu?item=1'',
      n_stock_el = Some (''In stock'', Some ''12''), n_category_el = None,
      n_brand_el = Some ''ACME''\<rparr>"

definition unpriced_item :: newegg_item where
  "unpriced_item = gpu_item\<lparr>n_price_el := None\<rparr>"

definition newegg_example_world :: newegg_world where
  "newegg_example_world =
     \<lparr>n_launch_ok = True, n_page = Some [gpu_item, unpriced_item], n_connect_ok = True,
      n_store_fails = (\<lambda>k. False), n_now = (\<lambda>k. 2000 + k)\<rparr>"

definition unpriced_page :: dom where
  "unpriced_page = phone_page\<lparr>price_el := None\<rparr>"

section \<open>Properties\<close>

text \<open>The definitions a concrete run unfolds.\<close>

lemmas run_defs = scrapeAndSave_def initialize_def close_def logger_def initial_state_def
  scrapeCategory_def scrapeProduct_def scrapeProduct_body_def evaluate_product_def
  getPrice_def getOriginalPrice_def getImages_def getSpecs_def add_source_def source_id_of_def
  collect_links_def categories_def save_product_def make_update_def findOneAndUpdate_def
  upsert_def new_record_def write_fields_def parseFloat_def strip_non_numeric_def
  is_digit_def digits_val_def digit_val_def trim_def is_space_def
  example_world_def phone_page_def untitled_page_def free_page_def Let_def

subsection \<open>Splitting a URL\<close>

text \<open>
  A split is never empty, so \<open>pop()\<close> and \<open>[0]\<close> always find an element: the identifier of
  a URL is what follows its last slash, up to the first question mark.
\<close>

lemma split_on_nonempty: "split_on c s \<noteq> []"
  by (induction s) (auto split: list.splits)

lemma hd_split_on: "hd (split_on c s) = takeWhile (\<lambda>x. x \<noteq> c) s"
proof (induction s)
  case Nil
  then show ?case by simp
next
  case (Cons x xs)
  then show ?case using split_on_nonempty[of c xs] by (cases "split_on c xs") auto
qed

lemma split_on_absent: "c \<notin> set s \<Longrightarrow> split_on c s = [s]"
  by (induction s) auto

lemma split_on_present: "c \<in> set s \<Longrightarrow> \<exists>y z zs. split_on c s = y # z # zs"
proof (induction s)
  case Nil
  then show ?case by simp
next
  case (Cons x xs)
  obtain y ys where sp: "split_on c xs = y # ys"
    using split_on_nonempty[of c xs] by (cases "split_on c xs") auto
  show ?case
  proof (cases "x = c")
    case True
    with sp show ?thesis by simp
  next
    case False
    with Cons.prems have "c \<in> set xs" by simp
    from Cons.IH[OF this] False show ?thesis by auto
  qed
qed

lemma last_split_on: "last (split_on c s) = rev (takeWhile (\<lambda>x. x \<noteq> c) (rev s))"
proof (induction s)
  case Nil
  then show ?case by simp
next
  case (Cons x xs)
  show ?case
  proof (cases "c \<in> set xs")
    case True
    from split_on_present[OF True] obtain y z zs where sp: "split_on c xs = y # z # zs" by blast
    from True have "\<not> (\<forall>a\<in>set (rev xs). a \<noteq> c)" by simp
    then have "takeWhile (\<lambda>x. x \<noteq> c) (rev xs @ [x]) = takeWhile (\<lambda>x. x \<noteq> c) (rev xs)"
      by (simp add: takeWhile_append1)
    with sp Cons.IH show ?thesis by simp
  next
    case False
    then have sp: "split_on c xs = [xs]" by (rule split_on_absent)
    from False have all: "\<forall>a\<in>set (rev xs). a \<noteq> c" by auto
    have "takeWhile (\<lambda>a. a \<noteq> c) (rev xs @ [x]) = rev xs @ takeWhile (\<lambda>a. a \<noteq> c) [x]"
      by (rule takeWhile_append2) (use all in blast)
    then have tw: "takeWhile (\<lambda>a. a \<noteq> c) (rev xs @ [x]) = rev xs @ (if x = c then [] else [x])"
      by simp
    have rhs: "rev (takeWhile (\<lambda>a. a \<noteq> c) (rev (x # xs))) = (if x = c then xs else x # xs)"
      by (simp only: rev.simps tw) simp
    have lhs: "last (split_on c (x # xs)) = (if x = c then xs else x # xs)"
      using sp by simp
    show ?thesis by (simp only: lhs rhs)
  qed
qed

lemma source_id_of_segment:
  "source_id_of url =
     takeWhile (\<lambda>x. x \<noteq> CHR ''?'') (rev (takeWhile (\<lambda>x. x \<noteq> CHR ''/'') (rev url)))"
  by (simp add: source_id_of_def hd_split_on last_split_on)

subsection \<open>What each operation leaves unchanged\<close>

lemma scrapeProduct_frame:
  "scrapeProduct w url s = (r, s') \<Longrightarrow>
     db s' = db s \<and> sync_calls s' = sync_calls s \<and> browser s' = browser s \<and>
     running s' = running s \<and> close_calls s' = close_calls s \<and>
     browser_closes s' = browser_closes s \<and> attempts s' = attempts s @ [url]"
  by (auto simp: scrapeProduct_def Let_def logger_def split: sum.splits)

lemma scrape_links_frame:
  "scrape_links w links acc s = (ps, s') \<Longrightarrow>
     db s' = db s \<and> sync_calls s' = sync_calls s \<and> browser s' = browser s \<and>
     running s' = running s \<and> close_calls s' = close_calls s \<and>
     browser_closes s' = browser_closes s \<and> attempts s' = attempts s @ links"
proof (induction links arbitrary: acc s)
  case Nil
  then show ?case by simp
next
  case (Cons link links)
  obtain r s1 where sp: "scrapeProduct w link s = (r, s1)" by (cases "scrapeProduct w link s")
  note f1 = scrapeProduct_frame[OF sp]
  show ?case
  proof (cases r)
    case (Inl e)
    with Cons.prems sp have "scrape_links w links acc (logger (Error_scraping_product link e) s1) = (ps, s')"
      by simp
    from Cons.IH[OF this] f1 show ?thesis by (simp add: logger_def)
  next
    case (Inr p)
    with Cons.prems sp have "scrape_links w links (acc @ [p]) s1 = (ps, s')" by simp
    from Cons.IH[OF this] f1 show ?thesis by simp
  qed
qed

lemma scrapeCategory_frame:
  "scrapeCategory w curl limit s = (r, s') \<Longrightarrow>
     db s' = db s \<and> sync_calls s' = sync_calls s \<and> browser s' = browser s \<and>
     running s' = running s \<and> close_calls s' = close_calls s \<and>
     browser_closes s' = browser_closes s"
  by (auto simp: scrapeCategory_def Let_def logger_def split: if_splits option.splits prod.splits
           dest: scrape_links_frame)

lemma scrapeCategory_attempts:
  "scrapeCategory w curl limit s = (r, s') \<Longrightarrow>
     length (attempts s') \<le> length (attempts s) + length (collect_links limit (case category_page w (base_url w @ curl) of None \<Rightarrow> [] | Some h \<Rightarrow> h))"
  by (auto simp: scrapeCategory_def Let_def logger_def split: if_splits option.splits prod.splits
           dest: scrape_links_frame)

lemma collect_links_foldl_bound:
  "int (length acc) \<le> max 0 N \<Longrightarrow>
   int (length (foldl (\<lambda>links href. if int (length links) < N \<and> href \<noteq> [] then links @ [href] else links) acc hrefs)) \<le> max 0 N"
  by (induction hrefs arbitrary: acc) auto

lemma collect_links_bound: "int (length (collect_links N hrefs)) \<le> max 0 N"
  unfolding collect_links_def by (rule collect_links_foldl_bound) simp

lemma save_product_frame:
  "browser (save_product w cat p s) = browser s \<and> running (save_product w cat p s) = running s \<and>
   close_calls (save_product w cat p s) = close_calls s \<and>
   browser_closes (save_product w cat p s) = browser_closes s \<and>
   attempts (save_product w cat p s) = attempts s"
  by (simp add: save_product_def Let_def logger_def findOneAndUpdate_def)

lemma save_products_frame:
  "browser (save_products w cat ps s) = browser s \<and> running (save_products w cat ps s) = running s \<and>
   close_calls (save_products w cat ps s) = close_calls s \<and>
   browser_closes (save_products w cat ps s) = browser_closes s \<and>
   attempts (save_products w cat ps s) = attempts s"
  by (induction ps arbitrary: s) (simp_all add: save_product_frame)

lemma scrape_categories_frame:
  "scrape_categories w cs s = (r, s') \<Longrightarrow>
     browser s' = browser s \<and> running s' = running s \<and> close_calls s' = close_calls s \<and>
     browser_closes s' = browser_closes s"
proof (induction cs arbitrary: s)
  case Nil
  then show ?case by simp
next
  case (Cons c cs)
  obtain cname curl where c: "c = (cname, curl)" by (cases c)
  obtain r1 s1 where sc: "scrapeCategory w curl 10 (logger (Info_scraping_category cname) s) = (r1, s1)"
    by (cases "scrapeCategory w curl 10 (logger (Info_scraping_category cname) s)")
  from scrapeCategory_frame[OF sc] have f1:
    "browser s1 = browser s" "running s1 = running s" "close_calls s1 = close_calls s"
    "browser_closes s1 = browser_closes s"
    by (simp_all add: logger_def)
  show ?case
  proof (cases r1)
    case (Inl e)
    with Cons.prems c sc have "s' = s1" by simp
    with f1 show ?thesis by simp
  next
    case (Inr products)
    with Cons.prems c sc have
      "scrape_categories w cs (logger (Info_completed (length products) cname) (save_products w cname products s1)) = (r, s')"
      by simp
    from Cons.IH[OF this] f1 show ?thesis by (simp add: logger_def save_products_frame)
  qed
qed

subsection \<open>Every persistence call is for a scraped listing\<close>

lemma scrapeProduct_scraped_from:
  "scrapeProduct w url s = (Inr p, s') \<Longrightarrow> scraped_from w p"
  by (auto simp: scrapeProduct_def scrapeProduct_body_def scraped_from_def add_source_def Let_def
           split: sum.splits if_splits option.splits)

lemma scrape_links_scraped_from:
  "scrape_links w links acc s = (ps, s') \<Longrightarrow> \<forall>p\<in>set acc. scraped_from w p \<Longrightarrow>
     \<forall>p\<in>set ps. scraped_from w p"
proof (induction links arbitrary: acc s)
  case Nil
  then show ?case by simp
next
  case (Cons link links)
  obtain r s1 where sp: "scrapeProduct w link s = (r, s1)" by (cases "scrapeProduct w link s")
  show ?case
  proof (cases r)
    case (Inl e)
    with Cons.prems(1) sp have "scrape_links w links acc (logger (Error_scraping_product link e) s1) = (ps, s')"
      by simp
    from Cons.IH[OF this Cons.prems(2)] show ?thesis .
  next
    case (Inr p)
    with Cons.prems(1) sp have step: "scrape_links w links (acc @ [p]) s1 = (ps, s')" by simp
    from sp Inr have "scraped_from w p" by (simp add: scrapeProduct_scraped_from)
    with Cons.prems(2) have "\<forall>p\<in>set (acc @ [p]). scraped_from w p" by simp
    from Cons.IH[OF step this] show ?thesis .
  qed
qed

lemma scrapeCategory_scraped_from:
  "scrapeCategory w curl limit s = (Inr ps, s') \<Longrightarrow> \<forall>p\<in>set ps. scraped_from w p"
  by (auto simp: scrapeCategory_def Let_def split: if_splits option.splits prod.splits
           dest!: scrape_links_scraped_from)

lemma save_product_sync_calls:
  "sync_calls (save_product w cat p s) =
     sync_calls s @ [(BySourceKey ''Backmarket'' (sourceId p),
                      make_update p cat (now w (length (sync_calls s))))]"
  by (simp add: save_product_def Let_def logger_def findOneAndUpdate_def)

lemma save_products_inv:
  assumes "\<forall>c\<in>set (sync_calls s). Q c"
    and "\<And>p t. p \<in> set ps \<Longrightarrow> Q (BySourceKey ''Backmarket'' (sourceId p), make_update p cat t)"
  shows "\<forall>c\<in>set (sync_calls (save_products w cat ps s)). Q c"
  using assms
proof (induction ps arbitrary: s)
  case Nil
  then show ?case by simp
next
  case (Cons p ps)
  have "\<forall>c\<in>set (sync_calls (save_product w cat p s)). Q c"
    using Cons.prems by (simp add: save_product_sync_calls)
  then show ?case using Cons.IH Cons.prems(2) by simp
qed

lemma scrape_categories_inv:
  assumes step: "\<And>p cat t. scraped_from w p \<Longrightarrow>
                   Q (BySourceKey ''Backmarket'' (sourceId p), make_update p cat t)"
  shows "scrape_categories w cs s = (r, s') \<Longrightarrow> \<forall>c\<in>set (sync_calls s). Q c \<Longrightarrow>
         \<forall>c\<in>set (sync_calls s'). Q c"
proof (induction cs arbitrary: s)
  case Nil
  then show ?case by simp
next
  case (Cons c cs)
  obtain cname curl where c: "c = (cname, curl)" by (cases c)
  obtain r1 s1 where sc: "scrapeCategory w curl 10 (logger (Info_scraping_category cname) s) = (r1, s1)"
    by (cases "scrapeCategory w curl 10 (logger (Info_scraping_category cname) s)")
  from scrapeCategory_frame[OF sc] have calls1: "sync_calls s1 = sync_calls s"
    by (simp add: logger_def)
  show ?case
  proof (cases r1)
    case (Inl e)
    with Cons.prems c sc calls1 show ?thesis by simp
  next
    case (Inr products)
    let ?s2 = "logger (Info_completed (length products) cname) (save_products w cname products s1)"
    from Cons.prems(1) c sc Inr have rest: "scrape_categories w cs ?s2 = (r, s')" by simp
    from sc Inr have "\<forall>p\<in>set products. scraped_from w p"
      by (simp add: scrapeCategory_scraped_from)
    then have "\<forall>c\<in>set (sync_calls (save_products w cname products s1)). Q c"
      using Cons.prems(2) calls1 step by (intro save_products_inv) simp_all
    then have "\<forall>c\<in>set (sync_calls ?s2). Q c" by (simp add: logger_def)
    from Cons.IH[OF rest this] show ?thesis .
  qed
qed

lemma scrapeAndSave_sync_calls:
  assumes "\<And>p cat t. scraped_from w p \<Longrightarrow>
             Q (BySourceKey ''Backmarket'' (sourceId p), make_update p cat t)"
    and "\<forall>c\<in>set (sync_calls s). Q c"
  shows "\<forall>c\<in>set (sync_calls (snd (scrapeAndSave w s))). Q c"
proof -
  have close_calls: "sync_calls (snd (close w t)) = sync_calls t" for t
    by (simp add: close_def Let_def)
  show ?thesis
  proof (cases "launch_ok w")
    case False
    then show ?thesis using assms(2)
      by (simp add: scrapeAndSave_def initialize_def close_calls logger_def Let_def)
  next
    case True
    let ?s0 = "s\<lparr>browser := True, running := True\<rparr>"
    obtain r s1 where sc: "scrape_categories w categories ?s0 = (r, s1)"
      by (cases "scrape_categories w categories ?s0")
    from assms(2) have "\<forall>c\<in>set (sync_calls ?s0). Q c" by simp
    from scrape_categories_inv[where Q = Q, OF assms(1) sc this]
    have "\<forall>c\<in>set (sync_calls s1). Q c" by simp
    with True sc show ?thesis
      by (cases r) (simp_all add: scrapeAndSave_def initialize_def close_calls logger_def Let_def)
  qed
qed

lemma scraped_from_fields:
  assumes "scraped_from w p" and "product_page w (sourceUrl p) = Some d"
  shows "name p = name (evaluate_product d)" and "price p = price (evaluate_product d)"
    and "images p = images (evaluate_product d)"
    and "opt_str_truthy (name p)" and "opt_num_truthy (price p)"
    and "source p = ''Backmarket''" and "sourceId p = source_id_of (sourceUrl p)"
proof -
  from assms have eq: "p = add_source (evaluate_product d) (sourceUrl p)"
    and t: "opt_str_truthy (name p)" "opt_num_truthy (price p)"
    by (simp_all add: scraped_from_def)
  from eq have "name p = name (add_source (evaluate_product d) (sourceUrl p))" by (rule arg_cong)
  then show "name p = name (evaluate_product d)" by (simp add: add_source_def)
  from eq have "price p = price (add_source (evaluate_product d) (sourceUrl p))" by (rule arg_cong)
  then show "price p = price (evaluate_product d)" by (simp add: add_source_def)
  from eq have "images p = images (add_source (evaluate_product d) (sourceUrl p))" by (rule arg_cong)
  then show "images p = images (evaluate_product d)" by (simp add: add_source_def)
  from eq have "source p = source (add_source (evaluate_product d) (sourceUrl p))" by (rule arg_cong)
  then show "source p = ''Backmarket''" by (simp add: add_source_def)
  from eq have "sourceId p = sourceId (add_source (evaluate_product d) (sourceUrl p))" by (rule arg_cong)
  then show "sourceId p = source_id_of (sourceUrl p)" by (simp add: add_source_def)
  from t show "opt_str_truthy (name p)" and "opt_num_truthy (price p)" by simp_all
qed

section \<open>The claims\<close>

subsection \<open>C5: the browser is closed exactly once\<close>

text \<open>
  Claim C5. For every run of the driver started from a fresh scraper, whatever the
  pages and the store do, \<open>close()\<close> is invoked exactly once; \<open>this.browser.close()\<close> is
  invoked exactly once when the browser was launched (and not at all when the launch
  itself failed, when there is no process to close); and the browser process is left
  running only if that one close call itself failed.
\<close>

theorem close_invoked_exactly_once:
  "close_calls (snd (scrapeAndSave w (initial_state ds))) = 1 \<and>
   browser_closes (snd (scrapeAndSave w (initial_state ds))) = (if launch_ok w then 1 else 0) \<and>
   running (snd (scrapeAndSave w (initial_state ds))) = (launch_ok w \<and> \<not> close_ok w)"
proof (cases "launch_ok w")
  case False
  then show ?thesis
    by (simp add: scrapeAndSave_def initialize_def close_def logger_def initial_state_def Let_def)
next
  case True
  let ?s0 = "(initial_state ds)\<lparr>browser := True, running := True\<rparr>"
  obtain r s1 where sc: "scrape_categories w categories ?s0 = (r, s1)"
    by (cases "scrape_categories w categories ?s0")
  from scrape_categories_frame[OF sc] have f:
    "browser s1" "running s1" "close_calls s1 = 0" "browser_closes s1 = 0"
    by (simp_all add: initial_state_def)
  from True sc f show ?thesis
    by (cases r) (simp_all add: scrapeAndSave_def initialize_def close_def logger_def Let_def)
qed

text \<open>
  In the example world the second category throws; the run still closes the browser once.
\<close>

theorem close_invoked_exactly_once_witness:
  "Error_in_scraping_process (Navigation_failed ''bm:/us/en-us/c/laptops'')
     \<in> set (log (snd (scrapeAndSave example_world (initial_state [])))) \<and>
   close_calls (snd (scrapeAndSave example_world (initial_state []))) = 1 \<and>
   browser_closes (snd (scrapeAndSave example_world (initial_state []))) = 1 \<and>
   \<not> running (snd (scrapeAndSave example_world (initial_state [])))"
proof -
  have "Error_in_scraping_process (Navigation_failed ''bm:/us/en-us/c/laptops'')
          \<in> set (log (snd (scrapeAndSave example_world (initial_state []))))"
    by (simp add: run_defs)
  moreover have "launch_ok example_world" "close_ok example_world"
    by (simp_all add: example_world_def)
  ultimately show ?thesis
    using close_invoked_exactly_once[of example_world "[]"] by simp
qed

subsection \<open>C9: the walk is bounded by its limit\<close>

text \<open>
  Claim C9. For every category walk with item bound \<open>N\<close>, at most \<open>N\<close> product links are
  collected from the listing page, however many it shows, and at most \<open>N\<close> extraction
  attempts are made (none when \<open>N\<close> is negative).
\<close>

theorem walk_bounded_by_limit:
  "int (length (collect_links N hrefs)) \<le> max 0 N \<and>
   int (length (attempts (snd (scrapeCategory w curl N s)))) \<le> int (length (attempts s)) + max 0 N"
proof
  show "int (length (collect_links N hrefs)) \<le> max 0 N" by (rule collect_links_bound)
next
  obtain r s' where sc: "scrapeCategory w curl N s = (r, s')" by (cases "scrapeCategory w curl N s")
  from scrapeCategory_attempts[OF sc]
  have "int (length (attempts s')) \<le> int (length (attempts s)) +
          int (length (collect_links N (case category_page w (base_url w @ curl) of None \<Rightarrow> [] | Some h \<Rightarrow> h)))"
    by simp
  also have "\<dots> \<le> int (length (attempts s)) + max 0 N"
    using collect_links_bound[of N] by simp
  finally show "int (length (attempts (snd (scrapeCategory w curl N s)))) \<le> int (length (attempts s)) + max 0 N"
    using sc by simp
qed

text \<open>With \<open>N = 5\<close> and ten links on the page, five are collected and at most five attempted.\<close>

theorem walk_bounded_by_limit_witness:
  "length ten_links = 10 \<and>
   collect_links 5 ten_links = [''a/0'', ''a/1'', ''a/2'', ''a/3'', ''a/4''] \<and>
   length (attempts (snd (scrapeCategory ten_link_world ''/c'' 5 ((initial_state [])\<lparr>browser := True\<rparr>)))) \<le> 5"
proof -
  have "collect_links 5 ten_links = [''a/0'', ''a/1'', ''a/2'', ''a/3'', ''a/4'']"
    by (simp add: collect_links_def ten_links_def)
  moreover have "length ten_links = 10" by (simp add: ten_links_def)
  moreover have "attempts ((initial_state [])\<lparr>browser := True\<rparr>) = []" by (simp add: initial_state_def)
  ultimately show ?thesis
    using walk_bounded_by_limit[of 5 ten_links ten_link_world "''/c''" "(initial_state [])\<lparr>browser := True\<rparr>"]
    by simp
qed

subsection \<open>C7: a listing without name or price never reaches the store\<close>

text \<open>
  Claim C7. When the page of a listing yields a null name or a null price, extraction of
  that listing fails with "Required product data missing", and no persistence call of the
  run is made for that listing's URL.
\<close>

theorem null_name_or_price_never_synced:
  assumes "product_page w url = Some d"
    and "name (evaluate_product d) = None \<or> price (evaluate_product d) = None"
  shows "(browser s \<longrightarrow> fst (scrapeProduct w url s) = Inl Required_product_data_missing) \<and>
         (\<forall>(q, u)\<in>set (sync_calls (snd (scrapeAndSave w (initial_state ds)))). sourceUrl u \<noteq> url)"
proof
  from assms show "browser s \<longrightarrow> fst (scrapeProduct w url s) = Inl Required_product_data_missing"
    by (auto simp: scrapeProduct_def scrapeProduct_body_def Let_def)
next
  have "\<forall>c\<in>set (sync_calls (snd (scrapeAndSave w (initial_state ds)))).
          (case c of (q, u) \<Rightarrow> sourceUrl u \<noteq> url)"
  proof (rule scrapeAndSave_sync_calls)
    fix p :: listing and cat t
    assume sf: "scraped_from w p"
    have "sourceUrl p \<noteq> url"
    proof
      assume "sourceUrl p = url"
      with assms(1) have pg: "product_page w (sourceUrl p) = Some d" by simp
      from scraped_from_fields[OF sf pg] assms(2) show False by auto
    qed
    then show "case (BySourceKey ''Backmarket'' (sourceId p), make_update p cat t) of
                 (q, u) \<Rightarrow> sourceUrl u \<noteq> url"
      by (simp add: make_update_def)
  next
    show "\<forall>c\<in>set (sync_calls (initial_state ds)). case c of (q, u) \<Rightarrow> sourceUrl u \<noteq> url"
      by (simp add: initial_state_def)
  qed
  then show "\<forall>(q, u)\<in>set (sync_calls (snd (scrapeAndSave w (initial_state ds)))). sourceUrl u \<noteq> url" .
qed

text \<open>
  The untitled page of the example world is attempted by the run, dropped at extraction,
  and never handed to the store.
\<close>

theorem null_name_or_price_never_synced_witness:
  "name (evaluate_product untitled_page) = None \<and>
   ''bm:/p/untitled'' \<in> set (attempts (snd (scrapeAndSave example_world (initial_state [])))) \<and>
   fst (scrapeProduct example_world ''bm:/p/untitled'' ((initial_state [])\<lparr>browser := True\<rparr>))
     = Inl Required_product_data_missing \<and>
   ''bm:/p/untitled'' \<notin> set (map (\<lambda>(q, u). sourceUrl u) (sync_calls (snd (scrapeAndSave example_world (initial_state [])))))"
proof -
  have pg: "product_page example_world ''bm:/p/untitled'' = Some untitled_page"
    by (simp add: example_world_def)
  have nm: "name (evaluate_product untitled_page) = None"
    by (simp add: evaluate_product_def untitled_page_def phone_page_def)
  have att: "''bm:/p/untitled'' \<in> set (attempts (snd (scrapeAndSave example_world (initial_state []))))"
    by (simp add: run_defs)
  have br: "browser ((initial_state [])\<lparr>browser := True\<rparr>)" by simp
  from null_name_or_price_never_synced[OF pg, of "(initial_state [])\<lparr>browser := True\<rparr>" "[]"] nm br att
  show ?thesis by auto
qed

subsection \<open>C10: a price of zero is rejected like a missing price\<close>

text \<open>
  Claim C10. In the Backmarket path, a listing whose price text parses to exactly \<open>0\<close> fails
  the mandatory-field check, which is a falsiness test: extraction ends with "Required
  product data missing", exactly as it would had the price element been absent, and no
  persistence call is made for the listing.
\<close>

theorem zero_price_is_missing_price:
  assumes "browser s" and "product_page w url = Some d" and "getPrice d = Some (Num 0)"
  shows "fst (scrapeProduct w url s) = Inl Required_product_data_missing \<and>
         scrapeProduct w url s =
           scrapeProduct (w\<lparr>product_page := (product_page w)(url := Some (d\<lparr>price_el := None\<rparr>))\<rparr>) url s \<and>
         (\<forall>(q, u)\<in>set (sync_calls (snd (scrapeAndSave w (initial_state ds)))). sourceUrl u \<noteq> url)"
proof -
  from assms(3) have pr: "price (evaluate_product d) = Some (Num 0)"
    by (simp add: evaluate_product_def)
  have a: "fst (scrapeProduct w url s) = Inl Required_product_data_missing"
    using assms(1,2) pr by (simp add: scrapeProduct_def scrapeProduct_body_def Let_def)
  have b: "scrapeProduct w url s =
           scrapeProduct (w\<lparr>product_page := (product_page w)(url := Some (d\<lparr>price_el := None\<rparr>))\<rparr>) url s"
    using assms(1,2) pr
    by (simp add: scrapeProduct_def scrapeProduct_body_def Let_def evaluate_product_def getPrice_def)
  have "\<forall>c\<in>set (sync_calls (snd (scrapeAndSave w (initial_state ds)))).
          (case c of (q, u) \<Rightarrow> sourceUrl u \<noteq> url)"
  proof (rule scrapeAndSave_sync_calls)
    fix p :: listing and cat t
    assume sf: "scraped_from w p"
    have "sourceUrl p \<noteq> url"
    proof
      assume "sourceUrl p = url"
      with assms(2) have pg: "product_page w (sourceUrl p) = Some d" by simp
      from scraped_from_fields[OF sf pg] pr show False by simp
    qed
    then show "case (BySourceKey ''Backmarket'' (sourceId p), make_update p cat t) of
                 (q, u) \<Rightarrow> sourceUrl u \<noteq> url"
      by (simp add: make_update_def)
  next
    show "\<forall>c\<in>set (sync_calls (initial_state ds)). case c of (q, u) \<Rightarrow> sourceUrl u \<noteq> url"
      by (simp add: initial_state_def)
  qed
  with a b show ?thesis by simp
qed

text \<open>The page priced \<open>$0.00\<close> in the example world is attempted and dropped.\<close>

theorem zero_price_is_missing_price_witness:
  "getPrice free_page = Some (Num 0) \<and>
   ''bm:/p/free'' \<in> set (attempts (snd (scrapeAndSave example_world (initial_state [])))) \<and>
   fst (scrapeProduct example_world ''bm:/p/free'' ((initial_state [])\<lparr>browser := True\<rparr>))
     = Inl Required_product_data_missing \<and>
   ''bm:/p/free'' \<notin> set (map (\<lambda>(q, u). sourceUrl u) (sync_calls (snd (scrapeAndSave example_world (initial_state [])))))"
proof -
  have pg: "product_page example_world ''bm:/p/free'' = Some free_page"
    by (simp add: example_world_def)
  have pr: "getPrice free_page = Some (Num 0)"
    by (simp add: getPrice_def free_page_def phone_page_def parseFloat_def strip_non_numeric_def
                  is_digit_def digits_val_def digit_val_def)
  have att: "''bm:/p/free'' \<in> set (attempts (snd (scrapeAndSave example_world (initial_state []))))"
    by (simp add: run_defs)
  have br: "browser ((initial_state [])\<lparr>browser := True\<rparr>)" by simp
  from zero_price_is_missing_price[OF br pg pr, of "[]"] pr att
  show ?thesis by auto
qed

subsection \<open>C3: listings without images\<close>

text \<open>
  Claim C3 says that a listing with an empty image list is discarded before the
  persistence step. In the Backmarket path it is not: the first page of the example
  world has a name and a price but no image, and the run hands it to \<open>findOneAndUpdate\<close>
  with \<open>images = []\<close>, after which the store holds it.
\<close>

theorem empty_image_listing_reaches_sync:
  "images (evaluate_product phone_page) = [] \<and>
   map (\<lambda>(q, u). (q, sourceUrl u, images u))
       (sync_calls (snd (scrapeAndSave example_world (initial_state []))))
     = [(BySourceKey ''Backmarket'' ''phone'', ''bm:/p/phone?l=12'', [])] \<and>
   map (\<lambda>d. (sourceId d, images d)) (db (snd (scrapeAndSave example_world (initial_state []))))
     = [(''phone'', [])]"
  by (simp add: run_defs)

subsection \<open>C4: an exception of the walker for one category\<close>

text \<open>
  Claim C4 says that after such an exception the loop advances to the next category. It
  does not: in the example world the listing page of the second category fails to load,
  the third category has a listing page with a good product, and the run never starts
  the third category nor attempts its product.
\<close>

theorem later_categories_not_processed:
  "category_page example_world (base_url example_world @ ''/us/en-us/c/laptops'') = None \<and>
   category_page example_world (base_url example_world @ ''/us/en-us/c/tablets'') = Some [''bm:/p/tablet''] \<and>
   product_page example_world ''bm:/p/tablet'' = Some phone_page \<and>
   Info_scraping_category ''Laptops'' \<in> set (log (snd (scrapeAndSave example_world (initial_state [])))) \<and>
   Info_scraping_category ''Tablets'' \<notin> set (log (snd (scrapeAndSave example_world (initial_state [])))) \<and>
   ''bm:/p/tablet'' \<notin> set (attempts (snd (scrapeAndSave example_world (initial_state []))))"
  by (simp add: run_defs)

text \<open>Which categories a run has started shows in its log; only the driver writes these entries.\<close>

lemma scrapeProduct_started:
  "scrapeProduct w url s = (r, s') \<Longrightarrow>
     (Info_scraping_category n \<in> set (log s')) = (Info_scraping_category n \<in> set (log s))"
  by (auto simp: scrapeProduct_def Let_def logger_def split: sum.splits)

lemma scrape_links_started:
  "scrape_links w links acc s = (ps, s') \<Longrightarrow>
     (Info_scraping_category n \<in> set (log s')) = (Info_scraping_category n \<in> set (log s))"
proof (induction links arbitrary: acc s)
  case Nil
  then show ?case by simp
next
  case (Cons link links)
  obtain r s1 where sp: "scrapeProduct w link s = (r, s1)" by (cases "scrapeProduct w link s")
  note l1 = scrapeProduct_started[OF sp, of n]
  show ?case
  proof (cases r)
    case (Inl e)
    with Cons.prems sp have "scrape_links w links acc (logger (Error_scraping_product link e) s1) = (ps, s')"
      by simp
    from Cons.IH[OF this] l1 show ?thesis by (simp add: logger_def)
  next
    case (Inr p)
    with Cons.prems sp have "scrape_links w links (acc @ [p]) s1 = (ps, s')" by simp
    from Cons.IH[OF this] l1 show ?thesis by simp
  qed
qed

lemma scrapeCategory_started:
  "scrapeCategory w curl limit s = (r, s') \<Longrightarrow>
     (Info_scraping_category n \<in> set (log s')) = (Info_scraping_category n \<in> set (log s))"
  by (auto simp: scrapeCategory_def Let_def logger_def split: if_splits option.splits prod.splits
           dest: scrape_links_started)

lemma save_products_started:
  "(Info_scraping_category n \<in> set (log (save_products w cat ps s))) =
   (Info_scraping_category n \<in> set (log s))"
  by (induction ps arbitrary: s)
     (simp_all add: save_product_def Let_def logger_def findOneAndUpdate_def)

lemma scrapeCategory_loads:
  "browser s \<Longrightarrow> category_page w (base_url w @ curl) \<noteq> None \<Longrightarrow>
     \<exists>ps s'. scrapeCategory w curl limit s = (Inr ps, s')"
  by (auto simp: scrapeCategory_def split: option.splits prod.splits)

lemma scrape_categories_prefix:
  assumes "browser s" and "\<forall>(n, u)\<in>set pre. category_page w (base_url w @ u) \<noteq> None"
  shows "\<exists>s1. browser s1 \<and> running s1 = running s \<and> close_calls s1 = close_calls s \<and>
              browser_closes s1 = browser_closes s \<and>
              (\<forall>n. Info_scraping_category n \<in> set (log s1) \<longrightarrow>
                     Info_scraping_category n \<in> set (log s) \<or> n \<in> fst ` set pre) \<and>
              scrape_categories w (pre @ rest) s = scrape_categories w rest s1"
  using assms
proof (induction pre arbitrary: s)
  case Nil
  then show ?case by auto
next
  case (Cons c pre)
  obtain cname curl where c: "c = (cname, curl)" by (cases c)
  let ?s0 = "logger (Info_scraping_category cname) s"
  from Cons.prems c have "browser ?s0" "category_page w (base_url w @ curl) \<noteq> None"
    by (simp_all add: logger_def)
  from scrapeCategory_loads[OF this] obtain ps s1 where sc: "scrapeCategory w curl 10 ?s0 = (Inr ps, s1)"
    by blast
  let ?s2 = "logger (Info_completed (length ps) cname) (save_products w cname ps s1)"
  from scrapeCategory_frame[OF sc] Cons.prems(1)
  have f2: "browser ?s2" "running ?s2 = running s" "close_calls ?s2 = close_calls s"
    "browser_closes ?s2 = browser_closes s"
    by (simp_all add: logger_def save_products_frame)
  have l2: "Info_scraping_category n \<in> set (log ?s2) \<Longrightarrow>
              Info_scraping_category n \<in> set (log s) \<or> n = cname" for n
    using scrapeCategory_started[OF sc, of n]
    by (auto simp: logger_def save_products_started)
  from Cons.prems(2) have "\<forall>(n, u)\<in>set pre. category_page w (base_url w @ u) \<noteq> None" by simp
  from Cons.IH[OF f2(1) this] obtain s3 where s3:
    "browser s3" "running s3 = running ?s2" "close_calls s3 = close_calls ?s2"
    "browser_closes s3 = browser_closes ?s2"
    "\<forall>n. Info_scraping_category n \<in> set (log s3) \<longrightarrow>
          Info_scraping_category n \<in> set (log ?s2) \<or> n \<in> fst ` set pre"
    "scrape_categories w (pre @ rest) ?s2 = scrape_categories w rest s3"
    by blast
  have "scrape_categories w ((c # pre) @ rest) s = scrape_categories w rest s3"
    using c sc s3(6) by simp
  moreover have "\<forall>n. Info_scraping_category n \<in> set (log s3) \<longrightarrow>
          Info_scraping_category n \<in> set (log s) \<or> n \<in> fst ` set (c # pre)"
    using s3(5) l2 c by auto
  ultimately show ?case using s3(1-4) f2 by auto
qed

text \<open>
  Claim C4, amended. When the walker throws for one category (its listing page cannot be
  loaded) after the categories before it were walked, the walker logs the failure and
  rethrows, the driver catches it for the whole run and logs it, these being the last
  entries of the log; no later category of the fixed list is started; and the browser is
  closed once.
\<close>

theorem category_failure_ends_the_run:
  assumes "launch_ok w"
    and "categories = pre @ (cname, curl) # post"
    and "\<forall>(n, u)\<in>set pre. category_page w (base_url w @ u) \<noteq> None"
    and "category_page w (base_url w @ curl) = None"
  shows "(\<exists>l. log (snd (scrapeAndSave w (initial_state ds))) =
               l @ [Info_scraping_category cname,
                    Error_scraping_category curl (Navigation_failed (base_url w @ curl)),
                    Error_in_scraping_process (Navigation_failed (base_url w @ curl))]) \<and>
         (\<forall>(n, u)\<in>set post. Info_scraping_category n \<notin> set (log (snd (scrapeAndSave w (initial_state ds))))) \<and>
         close_calls (snd (scrapeAndSave w (initial_state ds))) = 1 \<and>
         browser_closes (snd (scrapeAndSave w (initial_state ds))) = 1"
proof -
  let ?e = "Navigation_failed (base_url w @ curl)"
  let ?s0 = "(initial_state ds)\<lparr>browser := True, running := True\<rparr>"
  have "browser ?s0" by simp
  from scrape_categories_prefix[OF this assms(3), of "(cname, curl) # post"]
  obtain s1 where s1: "browser s1" "close_calls s1 = close_calls ?s0"
    "browser_closes s1 = browser_closes ?s0"
    "\<forall>n. Info_scraping_category n \<in> set (log s1) \<longrightarrow>
          Info_scraping_category n \<in> set (log ?s0) \<or> n \<in> fst ` set pre"
    "scrape_categories w (pre @ (cname, curl) # post) ?s0 = scrape_categories w ((cname, curl) # post) s1"
    by blast
  let ?s2 = "logger (Error_scraping_category curl ?e) (logger (Info_scraping_category cname) s1)"
  have head: "scrape_categories w ((cname, curl) # post) s1 = (Inl ?e, ?s2)"
    using s1(1) assms(4) by (simp add: scrapeCategory_def logger_def Let_def)
  have run: "scrapeAndSave w (initial_state ds) = close w (logger (Error_in_scraping_process ?e) ?s2)"
    using assms(1,2) s1(5) head by (simp add: scrapeAndSave_def initialize_def Let_def)
  have lg: "log (snd (scrapeAndSave w (initial_state ds))) =
              log s1 @ [Info_scraping_category cname, Error_scraping_category curl ?e,
                        Error_in_scraping_process ?e]"
    unfolding run by (simp add: close_def logger_def Let_def)
  have "distinct (map fst categories)" by (simp add: categories_def)
  then have dist: "distinct (map fst (pre @ (cname, curl) # post))" using assms(2) by simp
  have none: "Info_scraping_category n \<notin> set (log (snd (scrapeAndSave w (initial_state ds))))"
    if "(n, u) \<in> set post" for n u
  proof -
    from that have npost: "n \<in> fst ` set post" by force
    with dist have "n \<noteq> cname" "n \<notin> fst ` set pre" by auto
    moreover have "log ?s0 = []" by (simp add: initial_state_def)
    ultimately have "Info_scraping_category n \<notin> set (log s1)" using s1(4) by auto
    with \<open>n \<noteq> cname\<close> show ?thesis unfolding lg by simp
  qed
  have cc: "close_calls (snd (scrapeAndSave w (initial_state ds))) = 1"
    "browser_closes (snd (scrapeAndSave w (initial_state ds))) = 1"
    unfolding run using s1(1-3) by (simp_all add: close_def logger_def Let_def initial_state_def)
  from lg none cc show ?thesis by auto
qed

text \<open>The example world: the second of the three categories fails.\<close>

theorem category_failure_ends_the_run_witness:
  "category_page example_world (base_url example_world @ ''/us/en-us/c/laptops'') = None \<and>
   (\<exists>l. log (snd (scrapeAndSave example_world (initial_state []))) =
            l @ [Info_scraping_category ''Laptops'',
                 Error_scraping_category ''/us/en-us/c/laptops'' (Navigation_failed ''bm:/us/en-us/c/laptops''),
                 Error_in_scraping_process (Navigation_failed ''bm:/us/en-us/c/laptops'')]) \<and>
   Info_scraping_category ''Tablets'' \<notin> set (log (snd (scrapeAndSave example_world (initial_state [])))) \<and>
   close_calls (snd (scrapeAndSave example_world (initial_state []))) = 1"
proof -
  have a: "launch_ok example_world" by (simp add: example_world_def)
  have b: "categories = [(''Smartphones'', ''/us/en-us/c/smartphones'')] @
             (''Laptops'', ''/us/en-us/c/laptops'') # [(''Tablets'', ''/us/en-us/c/tablets'')]"
    by (simp add: categories_def)
  have c: "\<forall>(n, u)\<in>set [(''Smartphones'', ''/us/en-us/c/smartphones'')].
             category_page example_world (base_url example_world @ u) \<noteq> None"
    by (simp add: example_world_def)
  have d: "category_page example_world (base_url example_world @ ''/us/en-us/c/laptops'') = None"
    by (simp add: example_world_def)
  have e: "base_url example_world @ ''/us/en-us/c/laptops'' = ''bm:/us/en-us/c/laptops''"
    by (simp add: example_world_def)
  from category_failure_ends_the_run[OF a b c d, of "[]"] d e show ?thesis by simp
qed

subsection \<open>The store under upserts\<close>

lemma update_first_None_iff: "(update_first q u ds = None) = (filter (matches q) ds = [])"
  by (induction ds) auto

lemma matches_write_fields: "matches q (write_fields u d) = matches q (new_record u)"
  by (cases q) (simp_all add: write_fields_def new_record_def)

lemma update_first_one_record:
  "update_first q u ds = Some ds' \<Longrightarrow> matches q (new_record u) \<Longrightarrow>
   length (filter (matches q) ds) \<le> 1 \<Longrightarrow>
     \<exists>d. filter (matches q) ds' = [write_fields u d]"
proof (induction ds arbitrary: ds')
  case Nil
  then show ?case by simp
next
  case (Cons d ds)
  show ?case
  proof (cases "matches q d")
    case True
    with Cons.prems(3) have "filter (matches q) ds = []" by simp
    with True Cons.prems(1,2) show ?thesis by (auto simp: matches_write_fields)
  next
    case False
    with Cons.prems(1) obtain ds0 where ds0: "update_first q u ds = Some ds0" "ds' = d # ds0"
      by auto
    from False Cons.prems(3) have "length (filter (matches q) ds) \<le> 1" by simp
    from Cons.IH[OF ds0(1) Cons.prems(2) this] False ds0(2) show ?thesis by simp
  qed
qed

lemma upsert_one_record:
  assumes "matches q (new_record u)" and "length (filter (matches q) ds) \<le> 1"
  shows "\<exists>d. filter (matches q) (upsert q u ds) = [d] \<and> price d = price u \<and> updatedAt d = updatedAt u"
proof (cases "update_first q u ds")
  case None
  then have "filter (matches q) ds = []" by (simp add: update_first_None_iff)
  with None assms(1) show ?thesis by (simp add: upsert_def new_record_def)
next
  case (Some ds')
  from update_first_one_record[OF Some assms] obtain d where "filter (matches q) ds' = [write_fields u d]"
    by blast
  with Some show ?thesis by (simp add: upsert_def write_fields_def)
qed

lemma scrapeProduct_source:
  "scrapeProduct w url s = (Inr p, s') \<Longrightarrow>
     source p = ''Backmarket'' \<and> sourceUrl p = url \<and> sourceId p = source_id_of url"
  by (auto simp: scrapeProduct_def scrapeProduct_body_def add_source_def Let_def
           split: sum.splits if_splits option.splits)

lemma save_product_db:
  "db (save_product w cat p s) =
     (if store_fails w (length (sync_calls s)) then db s
      else upsert (BySourceKey ''Backmarket'' (sourceId p))
                  (make_update p cat (now w (length (sync_calls s)))) (db s))"
  by (simp add: save_product_def Let_def logger_def findOneAndUpdate_def)

lemma save_product_log:
  "log (save_product w cat p s) =
     (if store_fails w (length (sync_calls s))
      then log s @ [Error_saving_product (name p) Store_failed] else log s)"
  by (simp add: save_product_def Let_def logger_def findOneAndUpdate_def)

lemma save_products_sync_calls:
  "sync_calls (save_products w cat ps s) =
     sync_calls s @
     map (\<lambda>(i, p). (BySourceKey ''Backmarket'' (sourceId p), make_update p cat (now w i)))
         (enumerate (length (sync_calls s)) ps)"
  by (induction ps arbitrary: s) (simp_all add: save_product_sync_calls)

lemmas store_defs = scrapeProduct_def scrapeProduct_body_def evaluate_product_def
  getPrice_def getOriginalPrice_def getImages_def getSpecs_def add_source_def source_id_of_def
  logger_def initial_state_def parseFloat_def strip_non_numeric_def
  is_digit_def digits_val_def digit_val_def trim_def is_space_def
  example_world_def cheaper_world_def open_state_def phone_page_def Let_def

subsection \<open>C1: upserting the same key twice\<close>

text \<open>
  Claim C1. Two listings scraped with the same source-native identifier are upserted one
  after the other into a store that holds at most one record under the key
  \<open>('Backmarket', identifier)\<close>. If the second persistence call succeeds, the store then
  holds exactly one record under that key, and its price is the price of the second
  listing.
\<close>

theorem upsert_twice_one_record_last_price:
  assumes "scrapeProduct w1 url1 s1 = (Inr p1, t1)"
    and "scrapeProduct w2 url2 s2 = (Inr p2, t2)"
    and "sourceId p1 = sourceId p2"
    and "length (filter (matches (BySourceKey ''Backmarket'' (sourceId p1))) (db s)) \<le> 1"
    and "\<not> store_fails w2 (Suc (length (sync_calls s)))"
  shows "\<exists>d. filter (matches (BySourceKey ''Backmarket'' (sourceId p1)))
                (db (save_product w2 c2 p2 (save_product w1 c1 p1 s))) = [d] \<and>
             price d = price p2"
proof -
  let ?q = "BySourceKey ''Backmarket'' (sourceId p1)"
  let ?sa = "save_product w1 c1 p1 s"
  from scrapeProduct_source[OF assms(1)] have src1: "source p1 = ''Backmarket''" by simp
  from scrapeProduct_source[OF assms(2)] have src2: "source p2 = ''Backmarket''" by simp
  have m1: "matches ?q (new_record (make_update p1 c t))" for c t
    using src1 by (simp add: new_record_def make_update_def)
  have m2: "matches ?q (new_record (make_update p2 c t))" for c t
    using src2 assms(3) by (simp add: new_record_def make_update_def)
  have uniq: "length (filter (matches ?q) (db ?sa)) \<le> 1"
  proof (cases "store_fails w1 (length (sync_calls s))")
    case True
    with assms(4) show ?thesis by (simp add: save_product_db)
  next
    case False
    from upsert_one_record[OF m1 assms(4), of c1 "now w1 (length (sync_calls s))"]
    obtain d where "filter (matches ?q) (upsert ?q (make_update p1 c1 (now w1 (length (sync_calls s)))) (db s)) = [d]"
      by blast
    with False show ?thesis by (simp add: save_product_db)
  qed
  have len: "length (sync_calls ?sa) = Suc (length (sync_calls s))"
    by (simp add: save_product_sync_calls)
  from assms(5) len
  have "db (save_product w2 c2 p2 ?sa) =
          upsert (BySourceKey ''Backmarket'' (sourceId p2))
                 (make_update p2 c2 (now w2 (Suc (length (sync_calls s))))) (db ?sa)"
    by (simp add: save_product_db)
  moreover from upsert_one_record[OF m2 uniq]
  obtain d where "filter (matches ?q) (upsert ?q (make_update p2 c2 (now w2 (Suc (length (sync_calls s))))) (db ?sa)) = [d]"
    "price d = price (make_update p2 c2 (now w2 (Suc (length (sync_calls s)))))"
    by blast
  ultimately show ?thesis using assms(3) by (auto simp: make_update_def)
qed

text \<open>
  The same product page scraped at \<open>$1,299.99\<close> and then at \<open>$999\<close>: one record, priced 999.
\<close>

theorem upsert_twice_one_record_last_price_witness:
  "price (listing_of ''bm:/p/phone?l=12'') = Some (Num 1299.99) \<and>
   (\<exists>d. filter (matches (BySourceKey ''Backmarket'' ''phone''))
           (db (save_product cheaper_world ''Smartphones''
                  (add_source (evaluate_product (phone_page\<lparr>price_el := Some ''$999''\<rparr>)) ''bm:/p/phone?l=12'')
                  (save_product example_world ''Smartphones'' (listing_of ''bm:/p/phone?l=12'') open_state)))
           = [d] \<and>
         price d = Some (Num 999))"
proof -
  let ?p1 = "listing_of ''bm:/p/phone?l=12''"
  let ?p2 = "add_source (evaluate_product (phone_page\<lparr>price_el := Some ''$999''\<rparr>)) ''bm:/p/phone?l=12''"
  have a: "scrapeProduct example_world ''bm:/p/phone?l=12'' open_state =
             (Inr ?p1, open_state\<lparr>attempts := [''bm:/p/phone?l=12'']\<rparr>)"
    by (simp add: store_defs listing_of_def)
  have b: "scrapeProduct cheaper_world ''bm:/p/phone?l=12'' open_state =
             (Inr ?p2, open_state\<lparr>attempts := [''bm:/p/phone?l=12'']\<rparr>)"
    by (simp add: store_defs)
  have c: "sourceId ?p1 = ''phone''" "sourceId ?p2 = ''phone''"
    by (simp_all add: listing_of_def add_source_def source_id_of_def)
  have d: "length (filter (matches (BySourceKey ''Backmarket'' (sourceId ?p1))) (db open_state)) \<le> 1"
    by (simp add: open_state_def initial_state_def)
  have e: "\<not> store_fails cheaper_world (Suc (length (sync_calls open_state)))"
    by (simp add: cheaper_world_def example_world_def)
  have p1: "price ?p1 = Some (Num 1299.99)" by (simp add: store_defs listing_of_def)
  have p2: "price ?p2 = Some (Num 999)" by (simp add: store_defs)
  from upsert_twice_one_record_last_price[OF a b _ d e, of "''Smartphones''" "''Smartphones''"] c p1 p2
  show ?thesis by simp
qed

subsection \<open>C6: a failing persistence call does not stop the batch\<close>

text \<open>
  Claim C6. Every listing of a batch gets its persistence call, in order, whichever
  calls fail. In
  a batch of three listings of which exactly one persistence call fails, the store ends
  as the store in which the other two listings were upserted, in order, and the log
  gains one entry naming the product that failed.
\<close>

theorem one_failed_save_does_not_stop_the_batch:
  "sync_calls (save_products w cat ps s) =
     sync_calls s @
     map (\<lambda>(i, p). (BySourceKey ''Backmarket'' (sourceId p), make_update p cat (now w i)))
         (enumerate (length (sync_calls s)) ps) \<and>
   (let k = length (sync_calls s);
        commit = (\<lambda>i p. upsert (BySourceKey ''Backmarket'' (sourceId p))
                               (make_update p cat (now w (k + i))));
        final = save_products w cat [a, b, c] s
    in (store_fails w k \<and> \<not> store_fails w (k + 1) \<and> \<not> store_fails w (k + 2) \<longrightarrow>
          db final = commit 2 c (commit 1 b (db s)) \<and>
          log final = log s @ [Error_saving_product (name a) Store_failed]) \<and>
       (\<not> store_fails w k \<and> store_fails w (k + 1) \<and> \<not> store_fails w (k + 2) \<longrightarrow>
          db final = commit 2 c (commit 0 a (db s)) \<and>
          log final = log s @ [Error_saving_product (name b) Store_failed]) \<and>
       (\<not> store_fails w k \<and> \<not> store_fails w (k + 1) \<and> store_fails w (k + 2) \<longrightarrow>
          db final = commit 1 b (commit 0 a (db s)) \<and>
          log final = log s @ [Error_saving_product (name c) Store_failed]))"
proof -
  have "sync_calls (save_products w cat ps s) =
          sync_calls s @
          map (\<lambda>(i, p). (BySourceKey ''Backmarket'' (sourceId p), make_update p cat (now w i)))
              (enumerate (length (sync_calls s)) ps)"
    by (rule save_products_sync_calls)
  then show ?thesis
    by (simp add: save_product_db save_product_log save_product_sync_calls Let_def)
qed

text \<open>Three listings, the second call failing: the first and the third are in the store.\<close>

theorem one_failed_save_does_not_stop_the_batch_witness:
  "store_fails flaky_world 1 \<and>
   map sourceId (db (save_products flaky_world ''Laptops''
                       [listing_of ''bm:/p/a'', listing_of ''bm:/p/b'', listing_of ''bm:/p/c''] open_state))
     = [''a'', ''c''] \<and>
   length (sync_calls (save_products flaky_world ''Laptops''
                       [listing_of ''bm:/p/a'', listing_of ''bm:/p/b'', listing_of ''bm:/p/c''] open_state)) = 3"
proof -
  have k: "length (sync_calls open_state) = 0" by (simp add: open_state_def initial_state_def)
  have d0: "db open_state = []" by (simp add: open_state_def initial_state_def)
  have ids: "sourceId (listing_of ''bm:/p/a'') = ''a''" "sourceId (listing_of ''bm:/p/c'') = ''c''"
    by (simp_all add: listing_of_def add_source_def source_id_of_def)
  from one_failed_save_does_not_stop_the_batch[of flaky_world "''Laptops''"
         "[listing_of ''bm:/p/a'', listing_of ''bm:/p/b'', listing_of ''bm:/p/c'']" open_state
         "listing_of ''bm:/p/a''" "listing_of ''bm:/p/b''" "listing_of ''bm:/p/c''"]
  show ?thesis using k d0 ids
    by (simp add: Let_def upsert_def new_record_def make_update_def flaky_world_def)
qed

text \<open>The definitions a concrete Newegg run unfolds.\<close>

lemmas newegg_defs = scrapeNewegg_def newegg_finally_def newegg_save_def newegg_update_of_def
  newegg_products_def newegg_extract_def newegg_initial_def str_or_def parseInt_def
  parseFloat_def strip_non_numeric_def is_digit_def digits_val_def digit_val_def trim_def
  is_space_def newegg_example_world_def gpu_item_def unpriced_item_def Let_def

subsection \<open>C2: the key of the persistence calls\<close>

text \<open>
  Claim C2 says that every sync path keys its find-or-create on the pair (source tag,
  source-native identifier). The Newegg path does not: for the one item of the example
  world that passes its guard, \<open>scrapeNewegg\<close> queries the store by \<open>sourceUrl\<close> alone,
  with the source tag \<open>'newegg'\<close> in the update and no source-native identifier at all.
\<close>

theorem newegg_sync_keyed_on_source_url:
  "map (\<lambda>(q, u). (q, u_source u, u_sourceUrl u))
       (n_sync_calls (snd (scrapeNewegg newegg_example_world newegg_initial)))
     = [(BySourceUrl (Some ''ne:/p/gpu?item=1''), ''newegg'', Some ''ne:/p/gpu?item=1'')]"
  by (simp add: newegg_defs)

text \<open>
  This holds of every call of the Newegg path, each of which carries one non-empty image;
  every call of the Backmarket path is keyed on \<open>'Backmarket'\<close> and the listing's
  identifier.
\<close>

lemma newegg_save_calls:
  "\<forall>(q, u)\<in>set (n_sync_calls s). q = BySourceUrl (u_sourceUrl u) \<and> u_images u \<noteq> [] \<and> [] \<notin> set (u_images u) \<Longrightarrow>
   \<forall>(q, u)\<in>set (n_sync_calls (newegg_save w product s)). q = BySourceUrl (u_sourceUrl u) \<and> u_images u \<noteq> [] \<and> [] \<notin> set (u_images u)"
  by (auto simp: newegg_save_def newegg_update_of_def Let_def split: option.splits)

lemma newegg_loop_calls:
  "\<forall>(q, u)\<in>set (n_sync_calls s). q = BySourceUrl (u_sourceUrl u) \<and> u_images u \<noteq> [] \<and> [] \<notin> set (u_images u) \<Longrightarrow>
   \<forall>(q, u)\<in>set (n_sync_calls (foldl (\<lambda>st product. newegg_save w product st) s ps)).
      q = BySourceUrl (u_sourceUrl u) \<and> u_images u \<noteq> [] \<and> [] \<notin> set (u_images u)"
proof (induction ps arbitrary: s)
  case Nil
  then show ?case by simp
next
  case (Cons p ps)
  from Cons.IH[OF newegg_save_calls[OF Cons.prems]] show ?case by simp
qed

lemma newegg_sync_calls:
  "\<forall>(q, u)\<in>set (n_sync_calls (snd (scrapeNewegg w newegg_initial))).
     q = BySourceUrl (u_sourceUrl u) \<and> u_images u \<noteq> [] \<and> [] \<notin> set (u_images u)"
proof -
  have "\<forall>(q, u)\<in>set (n_sync_calls newegg_initial). q = BySourceUrl (u_sourceUrl u) \<and> u_images u \<noteq> [] \<and> [] \<notin> set (u_images u)"
    by (simp add: newegg_initial_def)
  from newegg_loop_calls[OF this] show ?thesis
    by (auto simp: scrapeNewegg_def newegg_finally_def newegg_initial_def split: option.splits)
qed

lemma backmarket_sync_calls:
  "\<forall>(q, u)\<in>set (sync_calls (snd (scrapeAndSave w (initial_state ds)))).
     q = BySourceKey ''Backmarket'' (sourceId u) \<and> source u = ''Backmarket''"
proof -
  have "\<forall>c\<in>set (sync_calls (snd (scrapeAndSave w (initial_state ds)))).
          (case c of (q, u) \<Rightarrow> q = BySourceKey ''Backmarket'' (sourceId u) \<and> source u = ''Backmarket'')"
  proof (rule scrapeAndSave_sync_calls)
    fix p :: listing and cat t
    assume sf: "scraped_from w p"
    then obtain d where "product_page w (sourceUrl p) = Some d"
      by (auto simp: scraped_from_def split: option.splits)
    from scraped_from_fields(6)[OF sf this]
    show "case (BySourceKey ''Backmarket'' (sourceId p), make_update p cat t) of
            (q, u) \<Rightarrow> q = BySourceKey ''Backmarket'' (sourceId u) \<and> source u = ''Backmarket''"
      by (simp add: make_update_def)
  next
    show "\<forall>c\<in>set (sync_calls (initial_state ds)).
            case c of (q, u) \<Rightarrow> q = BySourceKey ''Backmarket'' (sourceId u) \<and> source u = ''Backmarket''"
      by (simp add: initial_state_def)
  qed
  then show ?thesis .
qed

subsection \<open>C8: how the price is extracted\<close>

text \<open>
  Claim C8 says that in every extraction an absent price element gives a null price. In
  the Newegg extraction it gives the number zero.
\<close>

theorem newegg_absent_price_is_zero:
  "n_price_el unpriced_item = None \<and> n_price (newegg_extract unpriced_item) = Num 0"
  by (simp add: newegg_defs)

lemma parse_example: "parseFloat (strip_non_numeric ''$1,299.99 USD'') = Num 1299.99"
  by (simp add: parseFloat_def strip_non_numeric_def is_digit_def digits_val_def digit_val_def)

lemma parse_zero: "parseFloat ''0'' = Num 0"
  by (simp add: parseFloat_def is_digit_def digits_val_def digit_val_def)

text \<open>
  Claim C8, amended. In both extractions the price is the raw text, stripped of every
  character but digits and the decimal point, parsed as a decimal; so
  \<open>"$1,299.99 USD"\<close> gives \<open>1299.99\<close>. In the Backmarket extraction an absent price element
  gives a null price and extraction of the listing fails, while an absent original-price
  element gives a null original price and the listing is still extracted. In the Newegg
  extraction an absent price element gives the price zero, not null, and the listing is
  removed by the filter \<open>price > 0\<close>.
\<close>

theorem price_extraction:
  "getPrice d = map_option (\<lambda>innerText. parseFloat (strip_non_numeric innerText)) (price_el d) \<and>
   getOriginalPrice d = map_option (\<lambda>innerText. parseFloat (strip_non_numeric innerText)) (original_price_el d) \<and>
   parseFloat (strip_non_numeric ''$1,299.99 USD'') = Num 1299.99 \<and>
   (browser s \<and> product_page w url = Some d \<and> price_el d = None \<longrightarrow>
      price (evaluate_product d) = None \<and>
      fst (scrapeProduct w url s) = Inl Required_product_data_missing) \<and>
   (browser s \<and> product_page w url' = Some d' \<and> original_price_el d' = None \<and>
    opt_str_truthy (name (evaluate_product d')) \<and> opt_num_truthy (price (evaluate_product d')) \<longrightarrow>
      (\<exists>p. fst (scrapeProduct w url' s) = Inr p \<and> originalPrice p = None)) \<and>
   n_price (newegg_extract item) =
     parseFloat (str_or (map_option (\<lambda>t. strip_non_numeric (trim t)) (n_price_el item)) ''0'') \<and>
   (n_price_el item = None \<longrightarrow>
      n_price (newegg_extract item) = Num 0 \<and> newegg_products [item] = [])"
proof -
  have a: "getPrice d = map_option (\<lambda>innerText. parseFloat (strip_non_numeric innerText)) (price_el d)"
    by (simp add: getPrice_def split: option.splits)
  have b: "getOriginalPrice d = map_option (\<lambda>innerText. parseFloat (strip_non_numeric innerText)) (original_price_el d)"
    by (simp add: getOriginalPrice_def split: option.splits)
  have c: "price (evaluate_product d) = None \<and>
           fst (scrapeProduct w url s) = Inl Required_product_data_missing"
    if "browser s" "product_page w url = Some d" "price_el d = None"
    using that by (simp add: scrapeProduct_def scrapeProduct_body_def evaluate_product_def getPrice_def Let_def)
  have e: "\<exists>p. fst (scrapeProduct w url' s) = Inr p \<and> originalPrice p = None"
    if "browser s" "product_page w url' = Some d'" "original_price_el d' = None"
      "opt_str_truthy (name (evaluate_product d'))" "opt_num_truthy (price (evaluate_product d'))"
  proof -
    from that(3) have "originalPrice (evaluate_product d') = None"
      by (simp add: evaluate_product_def getOriginalPrice_def)
    with that(1,2,4,5) show ?thesis
      by (simp add: scrapeProduct_def scrapeProduct_body_def add_source_def Let_def)
  qed
  have f: "n_price (newegg_extract item) =
     parseFloat (str_or (map_option (\<lambda>t. strip_non_numeric (trim t)) (n_price_el item)) ''0'')"
    by (simp add: newegg_extract_def Let_def option.map_comp comp_def)
  have g: "n_price (newegg_extract item) = Num 0 \<and> newegg_products [item] = []"
    if "n_price_el item = None"
    using that by (simp add: f str_or_def parse_zero newegg_products_def)
  from a b c e f g parse_example show ?thesis by blast
qed

text \<open>
  A Backmarket page without a price element fails, the example page without an
  original-price element is extracted, and the Newegg item without a price element is
  filtered out.
\<close>

theorem price_extraction_witness:
  "price (evaluate_product unpriced_page) = None \<and>
   fst (scrapeProduct (example_world\<lparr>product_page := (\<lambda>u. if u = ''bm:/p/x'' then Some unpriced_page else Some phone_page)\<rparr>)
          ''bm:/p/x'' open_state) = Inl Required_product_data_missing \<and>
   (\<exists>p. fst (scrapeProduct (example_world\<lparr>product_page := (\<lambda>u. if u = ''bm:/p/x'' then Some unpriced_page else Some phone_page)\<rparr>)
          ''bm:/p/y'' open_state) = Inr p \<and> originalPrice p = None) \<and>
   n_price (newegg_extract unpriced_item) = Num 0 \<and>
   newegg_products [unpriced_item] = []"
proof -
  let ?w = "example_world\<lparr>product_page := (\<lambda>u. if u = ''bm:/p/x'' then Some unpriced_page else Some phone_page)\<rparr>"
  have br: "browser open_state" by (simp add: open_state_def)
  have px: "product_page ?w ''bm:/p/x'' = Some unpriced_page" by simp
  have py: "product_page ?w ''bm:/p/y'' = Some phone_page" by simp
  have pe: "price_el unpriced_page = None" by (simp add: unpriced_page_def)
  have oe: "original_price_el phone_page = None" by (simp add: phone_page_def)
  have nm: "opt_str_truthy (name (evaluate_product phone_page))"
    by (simp add: evaluate_product_def phone_page_def trim_def is_space_def)
  have pr: "opt_num_truthy (price (evaluate_product phone_page))"
    by (simp add: evaluate_product_def getPrice_def phone_page_def parseFloat_def
                  strip_non_numeric_def is_digit_def digits_val_def digit_val_def)
  have ne: "n_price_el unpriced_item = None" by (simp add: unpriced_item_def)
  from price_extraction[of unpriced_page open_state ?w "''bm:/p/x''" "''bm:/p/y''" phone_page unpriced_item]
       br px py pe oe nm pr ne
  show ?thesis by blast
qed

end
